theory Spec2Isabelle
  imports Main "HOL-Library.Word" "HOL-Library.Log_Nat"
begin

section \<open>The value tree of the CBOR decoder (src/decoder.js)\<close>

text \<open>
  The decoder builds JavaScript values. A JavaScript string is kept as the list of its
  Unicode code points, a native number as \<open>jsnum\<close>, and every mutable container
  (array, plain object, \<open>Map\<close>) lives in an explicit store and is referred to by its
  address, because the builder keeps several references to one container (the parent
  container holds it as a child, the frame holds it as \<open>ref\<close>) and mutates it in place.
\<close>

type_synonym ustring = "nat list"

definition ascii :: "string \<Rightarrow> ustring" where
  "ascii cs = map of_char cs"

text \<open>
  Native numbers are doubles. The finite ones that occur here are integral (\<open>Fin\<close>);
  negative zero and the two infinities are cases of their own. A NaN keeps the sign bit of
  its double: \<open>NaN\<close> is the one with the bit clear (the global \<open>NaN\<close>, and what
  \<open>undefined\<close> converts to), \<open>NegNaN\<close> the one with the bit set. The two behave alike in
  every operation of the language, and differ in the bits a caller reads from the double.
\<close>

datatype jsnum = Fin int | NegZero | PosInf | NegInf | NaN | NegNaN

datatype jsval =
    VUndefined
  | VNull
  | VBool bool
  | VNumber jsnum
  | VString ustring
  | VBignumber int
  | VArrayBuffer "8 word list"
  | VRef nat

text \<open>
  A stored container. An array element is \<open>None\<close> where the array has a hole
  (\<open>new Array(len)\<close> makes \<open>len\<close> of them). A plain object is the table of its own
  properties and a \<open>Map\<close> the table of its entries, both in insertion order.
\<close>

datatype hobj =
    Arr "jsval option list"
  | Obj "(ustring \<times> jsval) list"
  | MapObj "(jsval \<times> jsval) list"

datatype ptype = PARENT_ARRAY | PARENT_OBJECT | PARENT_MAP | PARENT_TAG

text \<open>
  A frame of the parents list. The source writes three different property names for the
  expected child count: the root frame is created with \<open>len\<close>, every other frame with
  \<open>left\<close>, and \<open>_dec\<close> reads and writes \<open>length\<close>. Each is a property of its own here;
  \<open>None\<close> is an absent property, which reads as \<open>undefined\<close>.
\<close>

record frame =
  type_p :: ptype
  left :: "jsval option"
  len :: "jsnum option"
  length_p :: "jsnum option"
  ref :: nat

datatype error = Error string | RangeError | TypeError

record decoder =
  heap :: "8 word list"
  store :: "hobj list"
  res :: nat
  tmpKey :: jsval
  parents :: "frame list"

definition lookup :: "hobj list \<Rightarrow> nat \<Rightarrow> hobj option" where
  "lookup h a = (if a < length h then Some (h ! a) else None)"

definition alloc :: "hobj \<Rightarrow> decoder \<Rightarrow> nat \<times> decoder" where
  "alloc ob s = (length (store s), s\<lparr>store := store s @ [ob]\<rparr>)"

section \<open>Native number arithmetic\<close>

text \<open>
  The result of an arithmetic operation on native numbers is the exact result rounded to
  the nearest double (53 significant bits, ties to even). All magnitudes that arise here
  are below \<open>2 ^ 65\<close>, far from the overflow to infinity.
\<close>

definition round_double :: "int \<Rightarrow> int" where
  "round_double n =
     (let a = nat \<bar>n\<bar>;
          e = floorlog 2 a - 53;
          q = a div 2 ^ e;
          r = a mod 2 ^ e;
          m = (if 2 ^ e < 2 * r \<or> (2 * r = 2 ^ e \<and> odd q) then q + 1 else q)
      in sgn n * int (m * 2 ^ e))"

definition num_mul :: "int \<Rightarrow> int \<Rightarrow> int" where
  "num_mul a b = round_double (a * b)"

definition num_add :: "int \<Rightarrow> int \<Rightarrow> int" where
  "num_add a b = round_double (a + b)"

definition num_sub :: "int \<Rightarrow> int \<Rightarrow> int" where
  "num_sub a b = round_double (a - b)"

text \<open>\<open>x < 0\<close>, \<open>x--\<close> and \<open>x === 0\<close> on a native number.\<close>

fun lt_zero :: "jsnum \<Rightarrow> bool" where
  "lt_zero (Fin n) = (n < 0)"
| "lt_zero NegInf = True"
| "lt_zero _ = False"

fun decrement :: "jsnum \<Rightarrow> jsnum" where
  "decrement (Fin n) = Fin (num_sub n 1)"
| "decrement NegZero = Fin (- 1)"
| "decrement PosInf = PosInf"
| "decrement NegInf = NegInf"
| "decrement NaN = NaN"
| "decrement NegNaN = NegNaN"

fun eq_zero :: "jsnum \<Rightarrow> bool" where
  "eq_zero (Fin n) = (n = 0)"
| "eq_zero NegZero = True"
| "eq_zero _ = False"

text \<open>
  Unary minus on a native number flips the sign bit of the double, that of a NaN as well.
\<close>

fun negate :: "jsnum \<Rightarrow> jsnum" where
  "negate (Fin n) = (if n = 0 then NegZero else Fin (- n))"
| "negate NegZero = Fin 0"
| "negate PosInf = NegInf"
| "negate NegInf = PosInf"
| "negate NaN = NegNaN"
| "negate NegNaN = NaN"

text \<open>Reading a numeric property that may be absent: \<open>undefined\<close> converts to NaN.\<close>

definition prop_num :: "jsnum option \<Rightarrow> jsnum" where
  "prop_num p = (case p of None \<Rightarrow> NaN | Some n \<Rightarrow> n)"

section \<open>Conversions of the language\<close>

text \<open>The test \<open>if (v)\<close>.\<close>

fun truthy :: "jsval \<Rightarrow> bool" where
  "truthy VUndefined = False"
| "truthy VNull = False"
| "truthy (VBool b) = b"
| "truthy (VNumber (Fin n)) = (n \<noteq> 0)"
| "truthy (VNumber NegZero) = False"
| "truthy (VNumber NaN) = False"
| "truthy (VNumber NegNaN) = False"
| "truthy (VNumber _) = True"
| "truthy (VString cs) = (cs \<noteq> [])"
| "truthy (VBignumber _) = True"
| "truthy (VArrayBuffer _) = True"
| "truthy (VRef _) = True"

text \<open>The test \<open>typeof v === 'string'\<close>.\<close>

fun typeof_string :: "jsval \<Rightarrow> bool" where
  "typeof_string (VString _) = True"
| "typeof_string _ = False"

function digits_of :: "nat \<Rightarrow> ustring" where
  "digits_of n = (if n < 10 then [48 + n] else digits_of (n div 10) @ [48 + n mod 10])"
  by pat_completeness auto
termination
  by (relation "measure id") auto

definition int_to_string :: "int \<Rightarrow> ustring" where
  "int_to_string i = (if i < 0 then 45 # digits_of (nat (- i)) else digits_of (nat i))"

fun num_to_string :: "jsnum \<Rightarrow> ustring" where
  "num_to_string (Fin n) = int_to_string n"
| "num_to_string NegZero = ascii ''0''"
| "num_to_string PosInf = ascii ''Infinity''"
| "num_to_string NegInf = ascii ''-Infinity''"
| "num_to_string NaN = ascii ''NaN''"
| "num_to_string NegNaN = ascii ''NaN''"

fun join_comma :: "ustring list \<Rightarrow> ustring" where
  "join_comma [] = []"
| "join_comma [x] = x"
| "join_comma (x # y # zs) = x @ 44 # join_comma (y # zs)"

text \<open>
  The string a value turns into when it is used as a property name of a plain object
  (\<open>obj[key] = val\<close>). An array is the comma-joined strings of its elements, where holes,
  \<open>undefined\<close> and \<open>null\<close> give the empty string; the first argument bounds the nesting of
  arrays that is followed, and the store has no cycles.
\<close>

fun to_string :: "nat \<Rightarrow> hobj list \<Rightarrow> jsval \<Rightarrow> ustring" where
  "to_string fuel h v =
     (case v of
        VUndefined \<Rightarrow> ascii ''undefined''
      | VNull \<Rightarrow> ascii ''null''
      | VBool b \<Rightarrow> (if b then ascii ''true'' else ascii ''false'')
      | VNumber n \<Rightarrow> num_to_string n
      | VString cs \<Rightarrow> cs
      | VBignumber i \<Rightarrow> int_to_string i
      | VArrayBuffer bs \<Rightarrow> ascii ''[object ArrayBuffer]''
      | VRef a \<Rightarrow>
          (case lookup h a of
             None \<Rightarrow> []
           | Some (Obj ps) \<Rightarrow> ascii ''[object Object]''
           | Some (MapObj es) \<Rightarrow> ascii ''[object Map]''
           | Some (Arr els) \<Rightarrow>
               (case fuel of
                  0 \<Rightarrow> []
                | Suc f \<Rightarrow>
                    join_comma
                      (map (\<lambda>el. case el of
                                   None \<Rightarrow> []
                                 | Some VUndefined \<Rightarrow> []
                                 | Some VNull \<Rightarrow> []
                                 | Some w \<Rightarrow> to_string f h w) els))))"

definition to_property_key :: "decoder \<Rightarrow> jsval \<Rightarrow> ustring" where
  "to_property_key s v = to_string (length (store s)) (store s) v"

text \<open>
  \<open>buffer.toString('utf8')\<close> of the platform: it never fails. A well-formed sequence
  gives its code point; a byte that cannot start or continue a well-formed sequence ends
  the sequence read so far, which is replaced by U+FFFD.
\<close>

definition is_cont :: "nat \<Rightarrow> bool" where
  "is_cont c = (128 \<le> c \<and> c \<le> 191)"

fun toString_utf8 :: "nat list \<Rightarrow> ustring" where
  "toString_utf8 [] = []"
| "toString_utf8 (b # bs) =
     (if b < 128 then b # toString_utf8 bs
      else if 194 \<le> b \<and> b \<le> 223 then
        (case bs of
           [] \<Rightarrow> [65533]
         | c # cs \<Rightarrow>
             if is_cont c then ((b - 192) * 64 + (c - 128)) # toString_utf8 cs
             else 65533 # toString_utf8 bs)
      else if 224 \<le> b \<and> b \<le> 239 then
        (case bs of
           [] \<Rightarrow> [65533]
         | c # cs \<Rightarrow>
             if (if b = 224 then 160 else 128) \<le> c \<and> c \<le> (if b = 237 then 159 else 191) then
               (case cs of
                  [] \<Rightarrow> [65533]
                | d # ds \<Rightarrow>
                    if is_cont d
                    then ((b - 224) * 4096 + (c - 128) * 64 + (d - 128)) # toString_utf8 ds
                    else 65533 # toString_utf8 cs)
             else 65533 # toString_utf8 bs)
      else if 240 \<le> b \<and> b \<le> 244 then
        (case bs of
           [] \<Rightarrow> [65533]
         | c # cs \<Rightarrow>
             if (if b = 240 then 144 else 128) \<le> c \<and> c \<le> (if b = 244 then 143 else 191) then
               (case cs of
                  [] \<Rightarrow> [65533]
                | d # ds \<Rightarrow>
                    if is_cont d then
                      (case ds of
                         [] \<Rightarrow> [65533]
                       | e # es \<Rightarrow>
                           if is_cont e
                           then ((b - 240) * 262144 + (c - 128) * 4096 + (d - 128) * 64 + (e - 128))
                                  # toString_utf8 es
                           else 65533 # toString_utf8 ds)
                    else 65533 # toString_utf8 cs)
             else 65533 # toString_utf8 bs)
      else 65533 # toString_utf8 bs)"

section \<open>Containers in the store\<close>

text \<open>
  \<open>array.push(val)\<close>. The length of an array is at most \<open>2 ^ 32 - 1\<close>: on an array that
  long (\<open>new Array(4294967295)\<close> makes one) \<open>push\<close> cannot set the new length and throws a
  RangeError. Calling \<open>push\<close> on anything but an array is a TypeError.
\<close>

definition array_push :: "nat \<Rightarrow> jsval \<Rightarrow> decoder \<Rightarrow> error + decoder" where
  "array_push a val s =
     (case lookup (store s) a of
        Some (Arr els) \<Rightarrow>
          if length els < 4294967295
          then Inr (s\<lparr>store := (store s)[a := Arr (els @ [Some val])]\<rparr>)
          else Inl RangeError
      | _ \<Rightarrow> Inl TypeError)"

text \<open>
  The properties of a plain object are kept in the order in which the language enumerates
  them: first the names that are array indices (the decimal form, without a leading zero,
  of a number below \<open>2 ^ 32 - 1\<close>) by ascending number, then the other names in the order
  in which they were added.
\<close>

definition is_digit :: "nat \<Rightarrow> bool" where
  "is_digit c = (48 \<le> c \<and> c \<le> 57)"

definition array_index :: "ustring \<Rightarrow> nat option" where
  "array_index k =
     (if k \<noteq> [] \<and> list_all is_digit k \<and> (length k = 1 \<or> hd k \<noteq> 48) then
        (let n = foldl (\<lambda>a c. 10 * a + (c - 48)) 0 k
         in if n < 4294967295 then Some n else None)
      else None)"

fun obj_insert :: "ustring \<Rightarrow> jsval \<Rightarrow> (ustring \<times> jsval) list \<Rightarrow> (ustring \<times> jsval) list" where
  "obj_insert k v [] = [(k, v)]"
| "obj_insert k v ((k', v') # ps) =
     (case array_index k of
        None \<Rightarrow> (k', v') # obj_insert k v ps
      | Some n \<Rightarrow>
          (case array_index k' of
             None \<Rightarrow> (k, v) # (k', v') # ps
           | Some m \<Rightarrow> if m < n then (k', v') # obj_insert k v ps else (k, v) # (k', v') # ps))"

text \<open>
  \<open>obj[key] = val\<close> on a plain object: the value of an existing property is replaced in
  its place, a new property is added at its place in the enumeration. The name
  \<open>__proto__\<close> is no property of the object: the assignment runs the setter that
  \<open>Object.prototype\<close> has for it and adds nothing to the object. (When the value is an
  object or \<open>null\<close> the setter replaces the prototype of the object; prototypes are not part
  of a stored object here.) A frame of type \<open>PARENT_OBJECT\<close> always refers to a plain
  object (lemma \<open>push_cases\<close> below); the model stops with a TypeError if it does not.
\<close>

definition obj_set :: "ustring \<Rightarrow> jsval \<Rightarrow> (ustring \<times> jsval) list \<Rightarrow> (ustring \<times> jsval) list" where
  "obj_set k v ps =
     (if k = ascii ''__proto__'' then ps
      else if k \<in> set (map fst ps)
      then map (\<lambda>(k', v'). if k' = k then (k', v) else (k', v')) ps
      else obj_insert k v ps)"

definition object_put :: "nat \<Rightarrow> jsval \<Rightarrow> jsval \<Rightarrow> decoder \<Rightarrow> error + decoder" where
  "object_put a key val s =
     (case lookup (store s) a of
        Some (Obj ps) \<Rightarrow>
          Inr (s\<lparr>store := (store s)[a := Obj (obj_set (to_property_key s key) val ps)]\<rparr>)
      | _ \<Rightarrow> Inl TypeError)"

text \<open>
  \<open>map.set(key, val)\<close>: keys are compared by SameValueZero. A Bignumber and an
  ArrayBuffer are objects, each one made afresh by the callback that pushes it, so such a
  key is equal to no key already in the map.
\<close>

fun same_value_zero :: "jsval \<Rightarrow> jsval \<Rightarrow> bool" where
  "same_value_zero (VBignumber _) _ = False"
| "same_value_zero (VArrayBuffer _) _ = False"
| "same_value_zero (VNumber NegZero) w = (w = VNumber NegZero \<or> w = VNumber (Fin 0))"
| "same_value_zero (VNumber (Fin n)) w = (w = VNumber (Fin n) \<or> (n = 0 \<and> w = VNumber NegZero))"
| "same_value_zero (VNumber NaN) w = (w = VNumber NaN \<or> w = VNumber NegNaN)"
| "same_value_zero (VNumber NegNaN) w = (w = VNumber NaN \<or> w = VNumber NegNaN)"
| "same_value_zero v w = (v = w)"

fun map_set :: "jsval \<Rightarrow> jsval \<Rightarrow> (jsval \<times> jsval) list \<Rightarrow> (jsval \<times> jsval) list" where
  "map_set k v [] = [(if k = VNumber NegZero then VNumber (Fin 0) else k, v)]"
| "map_set k v ((k', v') # es) =
     (if same_value_zero k k' then (k', v) # es else (k', v') # map_set k v es)"

definition map_put :: "nat \<Rightarrow> jsval \<Rightarrow> jsval \<Rightarrow> decoder \<Rightarrow> error + decoder" where
  "map_put a key val s =
     (case lookup (store s) a of
        Some (MapObj es) \<Rightarrow> Inr (s\<lparr>store := (store s)[a := MapObj (map_set key val es)]\<rparr>)
      | _ \<Rightarrow> Inl TypeError)"

text \<open>
  Modelled from the spec: \<open>utils.buildMap\<close> is not among the sources. The spec has the
  string-keyed contents of the object migrated into a general mapping, with no loss of
  entries and in their order.
\<close>

definition buildMap :: "(ustring \<times> jsval) list \<Rightarrow> (jsval \<times> jsval) list" where
  "buildMap ps = map (\<lambda>(k, v). (VString k, v)) ps"

text \<open>The two constants the source declares itself.\<close>

definition MAX_SAFE_HIGH :: int where
  "MAX_SAFE_HIGH = 0x1fffff"

definition NEG_ONE :: int where
  "NEG_ONE = - 1"

text \<open>
  Modelled from the spec: the constant \<open>SHIFT32\<close> of \<open>./constants\<close> is not among the
  sources. The spec has the high 32-bit word multiplied by \<open>2 ^ 32\<close>.
\<close>

definition SHIFT32 :: int where
  "SHIFT32 = 2 ^ 32"

text \<open>
  Modelled from the spec: \<open>utils.buildInt32\<close> is not among the sources. The spec has two
  16-bit fragments assembled big-endian into an unsigned 32-bit number, here in native
  arithmetic.
\<close>

definition buildInt32 :: "16 word \<Rightarrow> 16 word \<Rightarrow> int" where
  "buildInt32 f g = num_add (num_mul (uint f) (2 ^ 16)) (uint g)"

text \<open>
  Modelled from the spec: \<open>utils.buildInt64\<close> is not among the sources. The spec has four
  16-bit fragments assembled big-endian into an unsigned 64-bit number, which is promoted to
  an arbitrary-precision integer when its high word exceeds the safe-integer threshold.
\<close>

definition buildInt64 :: "16 word \<Rightarrow> 16 word \<Rightarrow> 16 word \<Rightarrow> 16 word \<Rightarrow> jsval" where
  "buildInt64 f1 f2 g1 g2 =
     (let f = buildInt32 f1 f2; g = buildInt32 g1 g2
      in if MAX_SAFE_HIGH < f then VBignumber (f * SHIFT32 + g)
         else VNumber (Fin (num_add (num_mul f SHIFT32) g)))"

section \<open>The builder: the parents list and \<open>_push\<close>\<close>

definition depth :: "decoder \<Rightarrow> nat" where
  "depth s = length (parents s)"

text \<open>\<open>this._parents[this._depth - 1]\<close>: \<open>undefined\<close> (here \<open>None\<close>) on an empty list.\<close>

definition currentParent :: "decoder \<Rightarrow> frame option" where
  "currentParent s = (if parents s = [] then None else Some (last (parents s)))"

text \<open>Assignments to a property of the current parent change the frame in the list.\<close>

definition set_currentParent :: "frame \<Rightarrow> decoder \<Rightarrow> decoder" where
  "set_currentParent p s = s\<lparr>parents := butlast (parents s) @ [p]\<rparr>"

definition closeParent :: "decoder \<Rightarrow> decoder" where
  "closeParent s = s\<lparr>parents := butlast (parents s)\<rparr>"

definition dec :: "decoder \<Rightarrow> error + decoder" where
  "dec s =
     (case currentParent s of
        None \<Rightarrow> Inl TypeError
      | Some p \<Rightarrow>
          if lt_zero (prop_num (length_p p)) then Inr s
          else
            let n = decrement (prop_num (length_p p));
                s' = set_currentParent (p\<lparr>length_p := Some n\<rparr>) s
            in if eq_zero n then Inr (closeParent s') else Inr s')"

text \<open>
  \<open>_push\<close>. The \<open>default\<close> branch of the switch (an unknown parent type, an Error) is
  excluded by the type \<open>ptype\<close>: the four constants are the only types a frame is ever
  given.
\<close>

definition push :: "jsval \<Rightarrow> decoder \<Rightarrow> error + decoder" where
  "push val s =
     (case currentParent s of
        None \<Rightarrow> Inl TypeError
      | Some p \<Rightarrow>
          (case type_p p of
             PARENT_ARRAY \<Rightarrow>
               (case array_push (ref p) val s of Inl e \<Rightarrow> Inl e | Inr s' \<Rightarrow> dec s')
           | PARENT_OBJECT \<Rightarrow>
               if truthy (tmpKey s) then
                 (case object_put (ref p) (tmpKey s) val s of
                    Inl e \<Rightarrow> Inl e
                  | Inr s' \<Rightarrow> dec (s'\<lparr>tmpKey := VNull\<rparr>))
               else if \<not> typeof_string val then
                 (case lookup (store s) (ref p) of
                    Some (Obj ps) \<Rightarrow>
                      let (a, s') = alloc (MapObj (buildMap ps)) (s\<lparr>tmpKey := val\<rparr>)
                      in Inr (set_currentParent (p\<lparr>type_p := PARENT_MAP, ref := a\<rparr>) s')
                  | _ \<Rightarrow> Inl TypeError)
               else Inr (s\<lparr>tmpKey := val\<rparr>)
           | PARENT_MAP \<Rightarrow>
               if truthy (tmpKey s) then
                 (case map_put (ref p) (tmpKey s) val s of
                    Inl e \<Rightarrow> Inl e
                  | Inr s' \<Rightarrow> dec (s'\<lparr>tmpKey := VNull\<rparr>))
               else Inr (s\<lparr>tmpKey := val\<rparr>)
           | PARENT_TAG \<Rightarrow> Inr s))"

text \<open>
  \<open>_createParent(obj, type, len)\<close>, with the address of \<open>obj\<close>: the object is pushed as
  a value, then a frame with the property \<open>left\<close> is put at index \<open>_depth\<close>, the end of the
  list.
\<close>

definition createParent :: "nat \<Rightarrow> ptype \<Rightarrow> jsval \<Rightarrow> decoder \<Rightarrow> error + decoder" where
  "createParent a ty n s =
     (case push (VRef a) s of
        Inl e \<Rightarrow> Inl e
      | Inr s' \<Rightarrow>
          Inr (s'\<lparr>parents := parents s' @
                 [\<lparr>type_p = ty, left = Some n, len = None, length_p = None, ref = a\<rparr>]\<rparr>))"

definition reset :: "decoder \<Rightarrow> decoder" where
  "reset s =
     (let (a, s') = alloc (Arr []) s
      in s'\<lparr>res := a, tmpKey := VNull,
            parents := [\<lparr>type_p = PARENT_ARRAY, left = None, len = Some (Fin (- 1)),
                         length_p = None, ref = a\<rparr>]\<rparr>)"

section \<open>The callbacks the scanner calls\<close>

text \<open>
  The scanner hands small integers over as 32-bit signed integers (read with \<open>sint\<close>)
  and wider ones as 16-bit fragments. The three callbacks for floating-point items
  (\<open>pushFloat\<close>, \<open>pushFloatSingle\<close>, \<open>pushFloatDouble\<close>) push a number read by the
  \<open>ieee754\<close> package and are left out: finite numbers are integral here.
\<close>

definition pushInt :: "32 word \<Rightarrow> decoder \<Rightarrow> error + decoder" where
  "pushInt val s = push (VNumber (Fin (sint val))) s"

definition pushInt32 :: "16 word \<Rightarrow> 16 word \<Rightarrow> decoder \<Rightarrow> error + decoder" where
  "pushInt32 f g s = push (VNumber (Fin (buildInt32 f g))) s"

definition pushInt64 ::
  "16 word \<Rightarrow> 16 word \<Rightarrow> 16 word \<Rightarrow> 16 word \<Rightarrow> decoder \<Rightarrow> error + decoder" where
  "pushInt64 f1 f2 g1 g2 s = push (buildInt64 f1 f2 g1 g2) s"

definition pushInt32Neg :: "16 word \<Rightarrow> 16 word \<Rightarrow> decoder \<Rightarrow> error + decoder" where
  "pushInt32Neg f g s = push (VNumber (Fin (num_sub (- 1) (buildInt32 f g)))) s"

text \<open>
  \<open>NEG_ONE.sub(x)\<close>. The package file of the repository declares \<open>bignumber.js\<close> in
  the version \<open>^9.0.0\<close>, whose numbers have the methods \<open>minus\<close>, \<open>plus\<close> and
  \<open>times\<close> and no method \<open>sub\<close>: the argument is evaluated, then the call of the
  missing method throws a TypeError.
\<close>

definition Bignumber_sub :: "int \<Rightarrow> int \<Rightarrow> error + int" where
  "Bignumber_sub a b = Inl TypeError"

definition pushInt64Neg ::
  "16 word \<Rightarrow> 16 word \<Rightarrow> 16 word \<Rightarrow> 16 word \<Rightarrow> decoder \<Rightarrow> error + decoder" where
  "pushInt64Neg f1 f2 g1 g2 s =
     (let f = buildInt32 f1 f2; g = buildInt32 g1 g2
      in if MAX_SAFE_HIGH < f then
           (case Bignumber_sub NEG_ONE (f * SHIFT32 + g) of
              Inl e \<Rightarrow> Inl e
            | Inr b \<Rightarrow> push (VBignumber b) s)
         else push (VNumber (Fin (num_sub (- 1) (num_add (num_mul f SHIFT32) g)))) s)"

definition pushTrue :: "decoder \<Rightarrow> error + decoder" where
  "pushTrue s = push (VBool True) s"

definition pushFalse :: "decoder \<Rightarrow> error + decoder" where
  "pushFalse s = push (VBool False) s"

definition pushNull :: "decoder \<Rightarrow> error + decoder" where
  "pushNull s = push VNull s"

definition pushUndefined :: "decoder \<Rightarrow> error + decoder" where
  "pushUndefined s = push VUndefined s"

definition pushInfinity :: "decoder \<Rightarrow> error + decoder" where
  "pushInfinity s = push (VNumber PosInf) s"

definition pushInfinityNeg :: "decoder \<Rightarrow> error + decoder" where
  "pushInfinityNeg s = push (VNumber (negate PosInf)) s"

definition pushNaN :: "decoder \<Rightarrow> error + decoder" where
  "pushNaN s = push (VNumber NaN) s"

definition pushNaNNeg :: "decoder \<Rightarrow> error + decoder" where
  "pushNaNNeg s = push (VNumber (negate NaN)) s"

text \<open>
  \<open>new Array(len)\<close>: a number must be an integer from 0 to \<open>2 ^ 32 - 1\<close> and gives that
  many holes, any other number is a RangeError; an argument that is not a number (a
  Bignumber) becomes the only element.
\<close>

fun new_Array :: "jsval \<Rightarrow> error + jsval option list" where
  "new_Array (VNumber (Fin n)) =
     (if 0 \<le> n \<and> n \<le> 4294967295 then Inr (replicate (nat n) None) else Inl RangeError)"
| "new_Array (VNumber NegZero) = Inr []"
| "new_Array (VNumber _) = Inl RangeError"
| "new_Array v = Inr [Some v]"

definition createObjectStartFixed :: "jsval \<Rightarrow> decoder \<Rightarrow> error + decoder" where
  "createObjectStartFixed n s =
     (let (a, s') = alloc (Obj []) s in createParent a PARENT_OBJECT n s')"

definition createArrayStartFixed :: "jsval \<Rightarrow> decoder \<Rightarrow> error + decoder" where
  "createArrayStartFixed n s =
     (case new_Array n of
        Inl e \<Rightarrow> Inl e
      | Inr els \<Rightarrow> (let (a, s') = alloc (Arr els) s in createParent a PARENT_ARRAY n s'))"

definition pushArrayStartFixed :: "32 word \<Rightarrow> decoder \<Rightarrow> error + decoder" where
  "pushArrayStartFixed n s = createArrayStartFixed (VNumber (Fin (sint n))) s"

definition pushArrayStartFixed32 :: "16 word \<Rightarrow> 16 word \<Rightarrow> decoder \<Rightarrow> error + decoder" where
  "pushArrayStartFixed32 len1 len2 s =
     createArrayStartFixed (VNumber (Fin (buildInt32 len1 len2))) s"

definition pushArrayStartFixed64 ::
  "16 word \<Rightarrow> 16 word \<Rightarrow> 16 word \<Rightarrow> 16 word \<Rightarrow> decoder \<Rightarrow> error + decoder" where
  "pushArrayStartFixed64 len1 len2 len3 len4 s =
     createArrayStartFixed (buildInt64 len1 len2 len3 len4) s"

definition pushObjectStartFixed :: "32 word \<Rightarrow> decoder \<Rightarrow> error + decoder" where
  "pushObjectStartFixed n s = createObjectStartFixed (VNumber (Fin (sint n))) s"

definition pushObjectStartFixed32 :: "16 word \<Rightarrow> 16 word \<Rightarrow> decoder \<Rightarrow> error + decoder" where
  "pushObjectStartFixed32 len1 len2 s =
     createObjectStartFixed (VNumber (Fin (buildInt32 len1 len2))) s"

definition pushObjectStartFixed64 ::
  "16 word \<Rightarrow> 16 word \<Rightarrow> 16 word \<Rightarrow> 16 word \<Rightarrow> decoder \<Rightarrow> error + decoder" where
  "pushObjectStartFixed64 len1 len2 len3 len4 s =
     createObjectStartFixed (buildInt64 len1 len2 len3 len4) s"

text \<open>
  \<open>this._heap.slice(start, end + 1)\<close>, called as \<open>heap_slice h start (end + 1)\<close>: the bytes
  from \<open>start\<close> up to the second bound, cut at the end of the region.
\<close>

definition heap_slice :: "8 word list \<Rightarrow> nat \<Rightarrow> nat \<Rightarrow> 8 word list" where
  "heap_slice h b e = take (e - b) (drop b h)"

definition pushByteString :: "nat \<Rightarrow> nat \<Rightarrow> decoder \<Rightarrow> error + decoder" where
  "pushByteString start end s = push (VArrayBuffer (heap_slice (heap s) start (end + 1))) s"

definition pushUtf8String :: "nat \<Rightarrow> nat \<Rightarrow> decoder \<Rightarrow> error + decoder" where
  "pushUtf8String start end s =
     push (VString (toString_utf8 (map unat (heap_slice (heap s) start (end + 1))))) s"

section \<open>Decoding: the scanner's events, \<open>_decode\<close>, \<open>decodeFirst\<close>, \<open>decodeAll\<close>\<close>

datatype event =
    PushInt "32 word"
  | PushInt32 "16 word" "16 word"
  | PushInt32Neg "16 word" "16 word"
  | PushInt64 "16 word" "16 word" "16 word" "16 word"
  | PushInt64Neg "16 word" "16 word" "16 word" "16 word"
  | PushTrue
  | PushFalse
  | PushUndefined
  | PushNull
  | PushInfinity
  | PushInfinityNeg
  | PushNaN
  | PushNaNNeg
  | PushArrayStartFixed "32 word"
  | PushArrayStartFixed32 "16 word" "16 word"
  | PushArrayStartFixed64 "16 word" "16 word" "16 word" "16 word"
  | PushObjectStartFixed "32 word"
  | PushObjectStartFixed32 "16 word" "16 word"
  | PushObjectStartFixed64 "16 word" "16 word" "16 word" "16 word"
  | PushByteString nat nat
  | PushUtf8String nat nat

fun callback :: "event \<Rightarrow> decoder \<Rightarrow> error + decoder" where
  "callback (PushInt v) s = pushInt v s"
| "callback (PushInt32 f g) s = pushInt32 f g s"
| "callback (PushInt32Neg f g) s = pushInt32Neg f g s"
| "callback (PushInt64 f1 f2 g1 g2) s = pushInt64 f1 f2 g1 g2 s"
| "callback (PushInt64Neg f1 f2 g1 g2) s = pushInt64Neg f1 f2 g1 g2 s"
| "callback PushTrue s = pushTrue s"
| "callback PushFalse s = pushFalse s"
| "callback PushUndefined s = pushUndefined s"
| "callback PushNull s = pushNull s"
| "callback PushInfinity s = pushInfinity s"
| "callback PushInfinityNeg s = pushInfinityNeg s"
| "callback PushNaN s = pushNaN s"
| "callback PushNaNNeg s = pushNaNNeg s"
| "callback (PushArrayStartFixed n) s = pushArrayStartFixed n s"
| "callback (PushArrayStartFixed32 a b) s = pushArrayStartFixed32 a b s"
| "callback (PushArrayStartFixed64 a b c d) s = pushArrayStartFixed64 a b c d s"
| "callback (PushObjectStartFixed n) s = pushObjectStartFixed n s"
| "callback (PushObjectStartFixed32 a b) s = pushObjectStartFixed32 a b s"
| "callback (PushObjectStartFixed64 a b c d) s = pushObjectStartFixed64 a b c d s"
| "callback (PushByteString a b) s = pushByteString a b s"
| "callback (PushUtf8String a b) s = pushUtf8String a b s"

text \<open>
  The scanner (\<open>decoder.asm\<close>, not among the sources) reads the shared region and the
  input length, calls the callbacks in order and returns a status code. It is a parameter:
  the events it emits and its status. An exception thrown by a callback leaves the scan.
\<close>

type_synonym parser = "8 word list \<Rightarrow> nat \<Rightarrow> event list \<times> int"

fun callbacks :: "event list \<Rightarrow> decoder \<Rightarrow> error + decoder" where
  "callbacks [] s = Inr s"
| "callbacks (ev # evs) s =
     (case callback ev s of Inl e \<Rightarrow> Inl e | Inr s' \<Rightarrow> callbacks evs s')"

text \<open>\<open>this._heap8.set(input)\<close>: a RangeError when the input is longer than the region.\<close>

definition heap8_set :: "8 word list \<Rightarrow> decoder \<Rightarrow> error + decoder" where
  "heap8_set input s =
     (if length (heap s) < length input then Inl RangeError
      else Inr (s\<lparr>heap := input @ drop (length input) (heap s)\<rparr>))"

definition decode :: "parser \<Rightarrow> 8 word list \<Rightarrow> decoder \<Rightarrow> error + decoder" where
  "decode parse input s =
     (case heap8_set input (reset s) of
        Inl e \<Rightarrow> Inl e
      | Inr s1 \<Rightarrow>
          (case parse (heap s1) (length input) of
             (evs, code) \<Rightarrow>
               (case callbacks evs s1 of
                  Inl e \<Rightarrow> Inl e
                | Inr s2 \<Rightarrow>
                    if 0 < code then Inl (Error ''Failed to parse'') else Inr s2)))"

text \<open>\<open>this._res[0]\<close>: \<open>undefined\<close> when the array has no first element.\<close>

definition first_of :: "decoder \<Rightarrow> jsval" where
  "first_of s =
     (case lookup (store s) (res s) of
        Some (Arr (Some v # els)) \<Rightarrow> v
      | _ \<Rightarrow> VUndefined)"

definition decodeFirst :: "parser \<Rightarrow> 8 word list \<Rightarrow> decoder \<Rightarrow> error + jsval \<times> decoder" where
  "decodeFirst parse input s =
     (case decode parse input s of Inl e \<Rightarrow> Inl e | Inr s' \<Rightarrow> Inr (first_of s', s'))"

definition decodeAll :: "parser \<Rightarrow> 8 word list \<Rightarrow> decoder \<Rightarrow> error + jsval \<times> decoder" where
  "decodeAll parse input s =
     (case decode parse input s of Inl e \<Rightarrow> Inl e | Inr s' \<Rightarrow> Inr (VRef (res s'), s'))"

text \<open>
  The constructor: a region of at least \<open>0x10000\<close> bytes, then \<open>_reset\<close>. \<open>None\<close> is a
  call without a size.
\<close>

definition Decoder :: "nat option \<Rightarrow> decoder" where
  "Decoder sz =
     (let n = (case sz of None \<Rightarrow> 65536 | Some k \<Rightarrow> if k = 0 \<or> k < 65536 then 65536 else k)
      in reset \<lparr>heap = replicate n 0, store = [], res = 0, tmpKey = VUndefined, parents = []\<rparr>)"

text \<open>
  What a caller sees of a result: the value, and the container it refers to when it is a
  reference.
\<close>

definition contents :: "jsval \<times> decoder \<Rightarrow> jsval \<times> hobj option" where
  "contents r = (fst r, case fst r of VRef a \<Rightarrow> lookup (store (snd r)) a | _ \<Rightarrow> None)"

section \<open>Well-formed builder states\<close>

text \<open>
  What every state between \<open>_reset\<close> and the end of a scan satisfies: the parents list
  is not empty, every frame refers to a stored container of the form its type asks for, and
  the property \<open>length\<close> of a frame is absent or NaN.
\<close>

fun kind_ok :: "ptype \<Rightarrow> hobj \<Rightarrow> bool" where
  "kind_ok PARENT_ARRAY (Arr els) = True"
| "kind_ok PARENT_OBJECT (Obj ps) = True"
| "kind_ok PARENT_MAP (MapObj es) = True"
| "kind_ok PARENT_TAG ob = True"
| "kind_ok ty ob = False"

definition wf_frame :: "hobj list \<Rightarrow> frame \<Rightarrow> bool" where
  "wf_frame h p =
     (ref p < length h \<and> kind_ok (type_p p) (h ! ref p) \<and>
      (length_p p = None \<or> length_p p = Some NaN))"

definition wf_decoder :: "decoder \<Rightarrow> bool" where
  "wf_decoder s = (parents s \<noteq> [] \<and> list_all (wf_frame (store s)) (parents s))"

text \<open>The current parent is an array that cannot take another element.\<close>

definition array_full :: "decoder \<Rightarrow> bool" where
  "array_full s =
     (case currentParent s of
        None \<Rightarrow> False
      | Some p \<Rightarrow>
          type_p p = PARENT_ARRAY \<and>
          (case lookup (store s) (ref p) of
             Some (Arr els) \<Rightarrow> 4294967295 \<le> length els
           | _ \<Rightarrow> False))"

text \<open>The events that open a container.\<close>

fun is_open :: "event \<Rightarrow> bool" where
  "is_open (PushArrayStartFixed n) = True"
| "is_open (PushArrayStartFixed32 a b) = True"
| "is_open (PushArrayStartFixed64 a b c d) = True"
| "is_open (PushObjectStartFixed n) = True"
| "is_open (PushObjectStartFixed32 a b) = True"
| "is_open (PushObjectStartFixed64 a b c d) = True"
| "is_open ev = False"

text \<open>
  A later store extends an earlier one when every address of the earlier one is still
  there and holds a container of the same form.
\<close>

definition ext :: "hobj list \<Rightarrow> hobj list \<Rightarrow> bool" where
  "ext h h' = (length h \<le> length h' \<and> (\<forall>b<length h. \<forall>t. kind_ok t (h ! b) \<longrightarrow> kind_ok t (h' ! b)))"

section \<open>Exact native arithmetic below \<open>2 ^ 53\<close>\<close>

lemma round_double_exact: "\<bar>n\<bar> \<le> 2 ^ 53 \<Longrightarrow> round_double n = n"
proof (cases "\<bar>n\<bar> = 2 ^ 53")
  case True
  then have a: "nat \<bar>n\<bar> = 2 ^ 53" by simp
  have "floorlog 2 (1 * 2 ^ 53 :: nat) = floorlog 2 1 + 53"
    by (rule floorlog_power) simp_all
  moreover have "floorlog 2 (1::nat) = 1"
    by (simp add: compute_floorlog)
  ultimately have fl: "floorlog 2 (9007199254740992 :: nat) = 54"
    by simp
  from True have "n = 2 ^ 53 \<or> n = - (2 ^ 53)" by (auto simp: abs_if split: if_splits)
  then show ?thesis
    by (auto simp: round_double_def a fl Let_def)
next
  case False
  assume "\<bar>n\<bar> \<le> 2 ^ 53"
  with False have lt: "nat \<bar>n\<bar> < 2 ^ 53" by simp
  have "floorlog 2 (nat \<bar>n\<bar>) \<le> 53"
    using lt by (simp add: floorlog_le_iff)
  then have e: "floorlog 2 (nat \<bar>n\<bar>) - 53 = 0" by simp
  have "round_double n = sgn n * int (nat \<bar>n\<bar>)"
    unfolding round_double_def Let_def e by simp
  then show ?thesis
    by (simp add: mult_sgn_abs)
qed

lemma buildInt32_eq: "buildInt32 f g = uint f * 65536 + uint g"
proof -
  have f: "0 \<le> uint f" "uint f < 65536" and g: "0 \<le> uint g" "uint g < 65536"
    using uint_lt2p [of f] uint_lt2p [of g] by simp_all
  have m: "num_mul (uint f) (2 ^ 16) = uint f * 65536"
    using f round_double_exact [of "uint f * 65536"]
    by (simp add: num_mul_def abs_mult)
  have "num_add (uint f * 65536) (uint g) = uint f * 65536 + uint g"
    using f g round_double_exact [of "uint f * 65536 + uint g"]
    by (simp add: num_add_def)
  with m show ?thesis by (simp add: buildInt32_def)
qed

lemma buildInt32_bounds: "0 \<le> buildInt32 f g" "buildInt32 f g < 4294967296"
  using uint_lt2p [of f] uint_lt2p [of g] by (simp_all add: buildInt32_eq)

section \<open>Well-formedness is kept by every callback\<close>

lemma ext_refl: "ext h h"
  by (simp add: ext_def)

lemma ext_trans: "ext h h' \<Longrightarrow> ext h' h'' \<Longrightarrow> ext h h''"
  by (fastforce simp: ext_def)

lemma ext_append: "ext h (h @ [ob])"
  by (simp add: ext_def nth_append)

lemma ext_update:
  "a < length h \<Longrightarrow> (\<And>t. kind_ok t (h ! a) \<Longrightarrow> kind_ok t ob) \<Longrightarrow> ext h (h[a := ob])"
  by (simp add: ext_def nth_list_update)

lemma wf_frame_ext: "wf_frame h p \<Longrightarrow> ext h h' \<Longrightarrow> wf_frame h' p"
  by (auto simp: wf_frame_def ext_def)

lemma list_all_wf_frame_ext:
  "list_all (wf_frame h) ps \<Longrightarrow> ext h h' \<Longrightarrow> list_all (wf_frame h') ps"
  by (auto simp: list_all_iff intro: wf_frame_ext)

lemma wf_reset: "wf_decoder (reset d)"
  by (simp add: reset_def alloc_def wf_decoder_def wf_frame_def)

lemma wf_last: "wf_decoder s \<Longrightarrow> wf_frame (store s) (last (parents s))"
  by (auto simp: wf_decoder_def list_all_iff)

lemma wf_set_currentParent:
  "wf_decoder s \<Longrightarrow> wf_frame (store s) p \<Longrightarrow> wf_decoder (set_currentParent p s)"
  by (auto simp: wf_decoder_def set_currentParent_def list_all_iff dest: in_set_butlastD)

lemma dec_wf:
  assumes "wf_decoder s"
  shows "dec s = Inr (set_currentParent ((last (parents s))\<lparr>length_p := Some NaN\<rparr>) s)"
proof -
  from assms have ne: "parents s \<noteq> []" by (simp add: wf_decoder_def)
  from wf_last [OF assms] have "prop_num (length_p (last (parents s))) = NaN"
    by (auto simp: wf_frame_def prop_num_def)
  then show ?thesis
    using ne by (simp add: dec_def currentParent_def Let_def)
qed

lemma dec_wf_props:
  assumes "wf_decoder s"
  shows "\<exists>s'. dec s = Inr s' \<and> wf_decoder s' \<and> length (parents s') = length (parents s) \<and>
           heap s' = heap s \<and> res s' = res s \<and> store s' = store s \<and> tmpKey s' = tmpKey s"
proof -
  from assms have ne: "parents s \<noteq> []" by (simp add: wf_decoder_def)
  have "wf_frame (store s) ((last (parents s))\<lparr>length_p := Some NaN\<rparr>)"
    using wf_last [OF assms] by (simp add: wf_frame_def)
  from wf_set_currentParent [OF assms this] show ?thesis
    using ne by (simp add: dec_wf [OF assms] set_currentParent_def)
qed


lemma kind_ok_ARRAY: "kind_ok PARENT_ARRAY ob \<longleftrightarrow> (\<exists>els. ob = Arr els)"
  by (cases ob) simp_all

lemma kind_ok_OBJECT: "kind_ok PARENT_OBJECT ob \<longleftrightarrow> (\<exists>ps. ob = Obj ps)"
  by (cases ob) simp_all

lemma kind_ok_MAP: "kind_ok PARENT_MAP ob \<longleftrightarrow> (\<exists>es. ob = MapObj es)"
  by (cases ob) simp_all

lemma kind_ok_same:
  "kind_ok t (Arr els) \<longleftrightarrow> t = PARENT_ARRAY \<or> t = PARENT_TAG"
  "kind_ok t (Obj ps) \<longleftrightarrow> t = PARENT_OBJECT \<or> t = PARENT_TAG"
  "kind_ok t (MapObj es) \<longleftrightarrow> t = PARENT_MAP \<or> t = PARENT_TAG"
  by (cases t; simp)+

lemma wf_ext:
  "wf_decoder s \<Longrightarrow> parents s' = parents s \<Longrightarrow> ext (store s) (store s') \<Longrightarrow> wf_decoder s'"
  by (auto simp: wf_decoder_def intro: list_all_wf_frame_ext)

lemma push_cases:
  assumes "wf_decoder s"
  shows "(array_full s \<and> push v s = Inl RangeError) \<or>
         (\<not> array_full s \<and>
          (\<exists>s'. push v s = Inr s' \<and> wf_decoder s' \<and> length (parents s') = length (parents s) \<and>
             heap s' = heap s \<and> res s' = res s \<and> ext (store s) (store s')))"
proof -
  define p where "p = last (parents s)"
  from assms have ne: "parents s \<noteq> []" by (simp add: wf_decoder_def)
  then have cur: "currentParent s = Some p" by (simp add: currentParent_def p_def)
  from wf_last [OF assms] have wfp: "wf_frame (store s) p" by (simp add: p_def)
  then have lt: "ref p < length (store s)" and kind: "kind_ok (type_p p) (store s ! ref p)"
    by (simp_all add: wf_frame_def)
  show ?thesis
  proof (cases "type_p p")
    case PARENT_ARRAY
    with kind obtain els where els: "store s ! ref p = Arr els"
      by (auto simp: kind_ok_ARRAY)
    show ?thesis
    proof (cases "length els < 4294967295")
      case True
      define s1 where "s1 = s\<lparr>store := (store s)[ref p := Arr (els @ [Some v])]\<rparr>"
      have e1: "ext (store s) (store s1)"
        unfolding s1_def by (simp, rule ext_update [OF lt]) (simp add: els kind_ok_same)
      have wf1: "wf_decoder s1" by (rule wf_ext [OF assms _ e1]) (simp add: s1_def)
      have nf: "\<not> array_full s"
        using cur lt els True by (simp add: array_full_def lookup_def)
      have "push v s = dec s1"
        using cur PARENT_ARRAY lt els True
        by (simp add: push_def array_push_def lookup_def s1_def)
      with dec_wf_props [OF wf1] e1 nf show ?thesis
        by (auto simp: s1_def)
    next
      case False
      have "array_full s"
        using cur PARENT_ARRAY lt els False by (simp add: array_full_def lookup_def)
      moreover have "push v s = Inl RangeError"
        using cur PARENT_ARRAY lt els False
        by (simp add: push_def array_push_def lookup_def)
      ultimately show ?thesis by simp
    qed
  next
    case PARENT_OBJECT
    with kind obtain ps where ps: "store s ! ref p = Obj ps"
      by (auto simp: kind_ok_OBJECT)
    have nf: "\<not> array_full s"
      using cur PARENT_OBJECT by (simp add: array_full_def)
    show ?thesis
    proof (cases "truthy (tmpKey s)")
      case True
      define s1 where
        "s1 = s\<lparr>store := (store s)[ref p := Obj (obj_set (to_property_key s (tmpKey s)) v ps)],
                 tmpKey := VNull\<rparr>"
      have e1: "ext (store s) (store s1)"
        unfolding s1_def by (simp, rule ext_update [OF lt]) (simp add: ps kind_ok_same)
      have wf1: "wf_decoder s1" by (rule wf_ext [OF assms _ e1]) (simp add: s1_def)
      have "push v s = dec s1"
        using cur PARENT_OBJECT lt ps True
        by (simp add: push_def object_put_def lookup_def s1_def)
      with dec_wf_props [OF wf1] e1 nf show ?thesis
        by (auto simp: s1_def)
    next
      case False
      show ?thesis
      proof (cases "typeof_string v")
        case True
        have "push v s = Inr (s\<lparr>tmpKey := v\<rparr>)"
          using cur PARENT_OBJECT \<open>\<not> truthy (tmpKey s)\<close> True by (simp add: push_def)
        moreover have "wf_decoder (s\<lparr>tmpKey := v\<rparr>)"
          by (rule wf_ext [OF assms]) (simp_all add: ext_refl)
        ultimately show ?thesis using nf by (simp add: ext_refl)
      next
        case nostr: False
        define s1 where "s1 = s\<lparr>tmpKey := v, store := store s @ [MapObj (buildMap ps)]\<rparr>"
        define p' where "p' = p\<lparr>type_p := PARENT_MAP, ref := length (store s)\<rparr>"
        have e1: "ext (store s) (store s1)" by (simp add: s1_def ext_append)
        have wf1: "wf_decoder s1" by (rule wf_ext [OF assms _ e1]) (simp add: s1_def)
        have wfp': "wf_frame (store s1) p'"
          using wfp by (simp add: wf_frame_def p'_def s1_def)
        have "push v s = Inr (set_currentParent p' s1)"
          using cur PARENT_OBJECT \<open>\<not> truthy (tmpKey s)\<close> nostr lt ps
          by (simp add: push_def lookup_def alloc_def s1_def p'_def)
        with wf_set_currentParent [OF wf1 wfp'] e1 ne nf show ?thesis
          by (simp add: set_currentParent_def s1_def)
      qed
    qed
  next
    case PARENT_MAP
    with kind obtain es where es: "store s ! ref p = MapObj es"
      by (auto simp: kind_ok_MAP)
    have nf: "\<not> array_full s"
      using cur PARENT_MAP by (simp add: array_full_def)
    show ?thesis
    proof (cases "truthy (tmpKey s)")
      case True
      define s1 where
        "s1 = s\<lparr>store := (store s)[ref p := MapObj (map_set (tmpKey s) v es)], tmpKey := VNull\<rparr>"
      have e1: "ext (store s) (store s1)"
        unfolding s1_def by (simp, rule ext_update [OF lt]) (simp add: es kind_ok_same)
      have wf1: "wf_decoder s1" by (rule wf_ext [OF assms _ e1]) (simp add: s1_def)
      have "push v s = dec s1"
        using cur PARENT_MAP lt es True
        by (simp add: push_def map_put_def lookup_def s1_def)
      with dec_wf_props [OF wf1] e1 nf show ?thesis
        by (auto simp: s1_def)
    next
      case False
      have "push v s = Inr (s\<lparr>tmpKey := v\<rparr>)"
        using cur PARENT_MAP False by (simp add: push_def)
      moreover have "wf_decoder (s\<lparr>tmpKey := v\<rparr>)"
        by (rule wf_ext [OF assms]) (simp_all add: ext_refl)
      ultimately show ?thesis using nf by (simp add: ext_refl)
    qed
  next
    case PARENT_TAG
    have nf: "\<not> array_full s"
      using cur PARENT_TAG by (simp add: array_full_def)
    have "push v s = Inr s"
      using cur PARENT_TAG by (simp add: push_def)
    with assms nf show ?thesis by (simp add: ext_refl)
  qed
qed

lemma push_wf:
  assumes "wf_decoder s" and "push v s = Inr s'"
  shows "wf_decoder s' \<and> length (parents s') = length (parents s) \<and>
           heap s' = heap s \<and> res s' = res s \<and> ext (store s) (store s')"
  using push_cases [OF assms(1), of v] assms(2) by auto

lemma createParent_wf:
  assumes "wf_decoder s" and "a < length (store s)" and "kind_ok ty (store s ! a)"
    and "createParent a ty n s = Inr s'"
  shows "wf_decoder s' \<and> length (parents s') = Suc (length (parents s)) \<and>
           heap s' = heap s \<and> res s' = res s \<and> ext (store s) (store s')"
proof -
  define fr where
    "fr = \<lparr>type_p = ty, left = Some n, len = None, length_p = None, ref = a\<rparr>"
  from assms(4) obtain s1 where
    p: "push (VRef a) s = Inr s1" and s': "s' = s1\<lparr>parents := parents s1 @ [fr]\<rparr>"
    by (auto simp: createParent_def fr_def split: sum.splits)
  from push_wf [OF assms(1) p] have wf1: "wf_decoder s1" and
    len: "length (parents s1) = length (parents s)" and
    same: "heap s1 = heap s" "res s1 = res s" and e: "ext (store s) (store s1)"
    by simp_all
  from e assms(2,3) have "wf_frame (store s1) fr"
    by (auto simp: wf_frame_def fr_def ext_def)
  with wf1 have "wf_decoder (s1\<lparr>parents := parents s1 @ [fr]\<rparr>)"
    by (simp add: wf_decoder_def)
  with len same e show ?thesis
    by (simp add: s')
qed

lemma createObjectStartFixed_wf:
  assumes "wf_decoder s" and "createObjectStartFixed n s = Inr s'"
  shows "wf_decoder s' \<and> length (parents s') = Suc (length (parents s)) \<and>
           heap s' = heap s \<and> res s' = res s \<and> ext (store s) (store s')"
proof -
  define s0 where "s0 = s\<lparr>store := store s @ [Obj []]\<rparr>"
  have e0: "ext (store s) (store s0)" by (simp add: s0_def ext_append)
  have wf0: "wf_decoder s0" by (rule wf_ext [OF assms(1) _ e0]) (simp add: s0_def)
  from assms(2) have c: "createParent (length (store s)) PARENT_OBJECT n s0 = Inr s'"
    by (simp add: createObjectStartFixed_def alloc_def s0_def)
  have "wf_decoder s' \<and> length (parents s') = Suc (length (parents s0)) \<and>
           heap s' = heap s0 \<and> res s' = res s0 \<and> ext (store s0) (store s')"
    by (rule createParent_wf [OF wf0 _ _ c]) (simp_all add: s0_def)
  with ext_trans [OF e0] show ?thesis
    by (simp add: s0_def)
qed

lemma createArrayStartFixed_wf:
  assumes "wf_decoder s" and "createArrayStartFixed n s = Inr s'"
  shows "wf_decoder s' \<and> length (parents s') = Suc (length (parents s)) \<and>
           heap s' = heap s \<and> res s' = res s \<and> ext (store s) (store s')"
proof -
  from assms(2) obtain els where els: "new_Array n = Inr els"
    by (cases "new_Array n") (simp_all add: createArrayStartFixed_def)
  define s0 where "s0 = s\<lparr>store := store s @ [Arr els]\<rparr>"
  have e0: "ext (store s) (store s0)" by (simp add: s0_def ext_append)
  have wf0: "wf_decoder s0" by (rule wf_ext [OF assms(1) _ e0]) (simp add: s0_def)
  from assms(2) els have c: "createParent (length (store s)) PARENT_ARRAY n s0 = Inr s'"
    by (simp add: createArrayStartFixed_def alloc_def s0_def)
  have "wf_decoder s' \<and> length (parents s') = Suc (length (parents s0)) \<and>
           heap s' = heap s0 \<and> res s' = res s0 \<and> ext (store s0) (store s')"
    by (rule createParent_wf [OF wf0 _ _ c]) (simp_all add: s0_def)
  with ext_trans [OF e0] show ?thesis
    by (simp add: s0_def)
qed

lemma callback_leaf:
  assumes "wf_decoder s" and "\<not> is_open ev" and "callback ev s = Inr s'"
  shows "wf_decoder s' \<and> length (parents s') = length (parents s) \<and>
           heap s' = heap s \<and> res s' = res s \<and> ext (store s) (store s')"
  using assms(2,3)
  by (cases ev)
     (auto simp: pushInt_def pushInt32_def pushInt32Neg_def pushInt64_def pushInt64Neg_def
        pushTrue_def pushFalse_def pushUndefined_def pushNull_def pushInfinity_def
        pushInfinityNeg_def pushNaN_def pushNaNNeg_def pushByteString_def pushUtf8String_def
        Bignumber_sub_def Let_def
        split: if_splits dest!: push_wf [OF assms(1)])

lemma callback_open:
  assumes "wf_decoder s" and "is_open ev" and "callback ev s = Inr s'"
  shows "wf_decoder s' \<and> length (parents s') = Suc (length (parents s)) \<and>
           heap s' = heap s \<and> res s' = res s \<and> ext (store s) (store s')"
  using assms(2,3)
  by (cases ev)
     (auto simp: pushArrayStartFixed_def pushArrayStartFixed32_def pushArrayStartFixed64_def
        pushObjectStartFixed_def pushObjectStartFixed32_def pushObjectStartFixed64_def
        dest!: createArrayStartFixed_wf [OF assms(1)] createObjectStartFixed_wf [OF assms(1)])

lemma callback_wf:
  assumes "wf_decoder s" and "callback ev s = Inr s'"
  shows "wf_decoder s' \<and> heap s' = heap s \<and> res s' = res s \<and> ext (store s) (store s') \<and>
         length (parents s') = (if is_open ev then Suc (length (parents s)) else length (parents s))"
proof (cases "is_open ev")
  case True
  with callback_open [OF assms(1) True assms(2)] show ?thesis by simp
next
  case False
  with callback_leaf [OF assms(1) False assms(2)] show ?thesis by simp
qed

lemma callbacks_wf:
  "wf_decoder s \<Longrightarrow> callbacks evs s = Inr s' \<Longrightarrow>
     wf_decoder s' \<and> heap s' = heap s \<and> res s' = res s \<and> ext (store s) (store s') \<and>
     length (parents s') = length (parents s) + length (filter is_open evs)"
proof (induction evs arbitrary: s)
  case Nil
  then show ?case by (simp add: ext_refl)
next
  case (Cons ev evs)
  from Cons.prems(2) obtain s1 where
    c1: "callback ev s = Inr s1" and rest: "callbacks evs s1 = Inr s'"
    by (auto split: sum.splits)
  note w1 = callback_wf [OF Cons.prems(1) c1]
  from Cons.IH [OF _ rest] w1 have
    "wf_decoder s' \<and> heap s' = heap s1 \<and> res s' = res s1 \<and> ext (store s1) (store s') \<and>
     length (parents s') = length (parents s1) + length (filter is_open evs)"
    by blast
  with w1 show ?case
    by (auto intro: ext_trans)
qed

lemma heap8_set_Inr:
  "heap8_set input s = Inr s1 \<Longrightarrow>
     s1 = s\<lparr>heap := input @ drop (length input) (heap s)\<rparr> \<and> length input \<le> length (heap s)"
  by (auto simp: heap8_set_def split: if_splits)

lemma wf_heap8_set: "wf_decoder s \<Longrightarrow> heap8_set input s = Inr s1 \<Longrightarrow> wf_decoder s1"
  by (auto dest!: heap8_set_Inr simp: wf_decoder_def)

lemma reachable_wf:
  "heap8_set input (reset d) = Inr s0 \<Longrightarrow> callbacks evs s0 = Inr s \<Longrightarrow> wf_decoder s"
  using callbacks_wf [of s0 evs s] wf_heap8_set [OF wf_reset, of input d s0] by blast

lemma heap_reset: "heap (reset d) = heap d"
  by (simp add: reset_def alloc_def)

lemma currentParent_last: "currentParent s = Some p \<Longrightarrow> parents s \<noteq> [] \<and> p = last (parents s)"
  by (auto simp: currentParent_def split: if_splits)

section \<open>The two branches of \<open>pushInt64Neg\<close>\<close>

lemma pushInt64Neg_native:
  assumes "buildInt32 f1 f2 \<le> MAX_SAFE_HIGH"
  shows "pushInt64Neg f1 f2 g1 g2 s =
     push (VNumber (Fin (- 1 - (buildInt32 f1 f2 * 2 ^ 32 + buildInt32 g1 g2)))) s"
proof -
  define hi where "hi = buildInt32 f1 f2"
  define lo where "lo = buildInt32 g1 g2"
  have b: "0 \<le> hi" "0 \<le> lo" "lo < 4294967296"
    by (simp_all add: hi_def lo_def buildInt32_bounds)
  from assms have le: "hi \<le> MAX_SAFE_HIGH" by (simp add: hi_def)
  then have h: "hi \<le> 2097151" by (simp add: MAX_SAFE_HIGH_def)
  have m: "num_mul hi SHIFT32 = hi * 4294967296"
    using h b round_double_exact [of "hi * 4294967296"]
    by (simp add: num_mul_def SHIFT32_def abs_mult)
  have a: "num_add (hi * 4294967296) lo = hi * 4294967296 + lo"
    using h b round_double_exact [of "hi * 4294967296 + lo"]
    by (simp add: num_add_def)
  have s: "num_sub (- 1) (hi * 4294967296 + lo) = - 1 - (hi * 4294967296 + lo)"
    using h b round_double_exact [of "- 1 - (hi * 4294967296 + lo)"]
    by (simp add: num_sub_def)
  from le show ?thesis
    by (simp add: pushInt64Neg_def Let_def m a s flip: hi_def lo_def)
qed

lemma pushInt64Neg_big:
  "MAX_SAFE_HIGH < buildInt32 f1 f2 \<Longrightarrow> pushInt64Neg f1 f2 g1 g2 s = Inl TypeError"
  by (simp add: pushInt64Neg_def Let_def Bignumber_sub_def)

section \<open>Evaluating the decoder on concrete inputs\<close>

lemmas model_defs =
  Decoder_def reset_def alloc_def
  pushInt_def pushInt32_def pushInt32Neg_def pushInt64_def
  pushTrue_def pushFalse_def pushUndefined_def pushNull_def pushInfinity_def
  pushInfinityNeg_def pushNaN_def pushNaNNeg_def pushByteString_def pushUtf8String_def
  pushArrayStartFixed_def pushObjectStartFixed_def
  createArrayStartFixed_def createObjectStartFixed_def createParent_def
  push_def dec_def currentParent_def set_currentParent_def closeParent_def
  array_push_def object_put_def map_put_def lookup_def prop_num_def
  buildMap_def to_property_key_def heap_slice_def is_cont_def depth_def
  decode_def decodeFirst_def decodeAll_def heap8_set_def first_of_def contents_def Let_def
  obj_set_def ascii_def array_index_def is_digit_def Bignumber_sub_def

text \<open>
  A map with two string keys, \<open>{"a": 1, "b": 2}\<close> (bytes \<open>a2 61 61 01 61 62 02\<close>),
  decodes to a plain object with both properties.
\<close>

lemma decodeFirst_string_keys:
  "map_sum id contents
     (decodeFirst
        (\<lambda>h n. ([PushObjectStartFixed 2, PushUtf8String 2 2, PushInt 1,
                  PushUtf8String 5 5, PushInt 2], 0))
        [0xa2, 0x61, 0x61, 0x01, 0x61, 0x62, 0x02] (Decoder None)) =
   Inr (VRef 2, Some (Obj [([97], VNumber (Fin 1)), ([98], VNumber (Fin 2))]))"
  by (simp add: model_defs)

section \<open>The claims\<close>

text \<open>
  C1. A frame opened with a declared length should lose one from its count at every push
  into its container and leave the stack at the push that brings the count to zero. The
  decoder does neither. After the events of the one-item array \<open>[5]\<close> the array's frame
  is still on the parents list (depth 2), its count \<open>left\<close> is still 1, and the property
  \<open>length\<close>, the one \<open>_dec\<close> decrements and compares with zero, is NaN in both frames.
\<close>

theorem dec_leaves_frame_open:
  "map_sum id (\<lambda>s. (depth s, map left (parents s), map length_p (parents s)))
     (callbacks [PushArrayStartFixed 1, PushInt 5] (Decoder None)) =
   Inr (2, [None, Some (VNumber (Fin 1))], [Some NaN, Some NaN])"
  by (simp add: model_defs)

text \<open>
  C2. Decoding a fixed-length array of N items should give a sequence of length N. For the
  one-item array \<open>[5]\<close> (bytes \<open>81 05\<close>) \<open>decodeFirst\<close> returns an array of length 2:
  the hole that \<open>new Array(1)\<close> made, then the pushed item. (In the store of a new
  decoder, address 0 is the root array of the constructor's \<open>_reset\<close>, address 1 the root
  array of the call and address 2 the first container the call makes.)
\<close>

theorem decodeFirst_array_of_one:
  "map_sum id contents
     (decodeFirst (\<lambda>h n. ([PushArrayStartFixed 1, PushInt 5], 0)) [0x81, 0x05] (Decoder None)) =
   Inr (VRef 2, Some (Arr [None, Some (VNumber (Fin 5))]))"
  by (simp add: model_defs)

text \<open>
  C3, as amended. A decode call starts with the parents list at depth one. When the scan
  emits no container-open event a successful call also ends at depth one. The final depth
  is never checked: when the input fits the shared region, no callback throws and the
  status is not positive, the call returns, whatever the depth.
\<close>

theorem decode_depth:
  "depth (reset d) = 1 \<and>
   (decode parse input d = Inr s \<longrightarrow>
      list_all (\<lambda>ev. \<not> is_open ev)
        (fst (parse (input @ drop (length input) (heap d)) (length input))) \<longrightarrow>
      depth s = 1) \<and>
   (heap8_set input (reset d) = Inr s1 \<longrightarrow> parse (heap s1) (length input) = (evs, code) \<longrightarrow>
      callbacks evs s1 = Inr s2 \<longrightarrow> code \<le> 0 \<longrightarrow> decode parse input d = Inr s2)"
proof (intro conjI impI)
  show d1: "depth (reset d) = 1"
    by (simp add: depth_def reset_def alloc_def)
  show "decode parse input d = Inr s2"
    if "heap8_set input (reset d) = Inr s1" "parse (heap s1) (length input) = (evs, code)"
       "callbacks evs s1 = Inr s2" "code \<le> 0"
    using that by (simp add: decode_def)
  show "depth s = 1"
    if dec: "decode parse input d = Inr s"
      and leaves: "list_all (\<lambda>ev. \<not> is_open ev)
        (fst (parse (input @ drop (length input) (heap d)) (length input)))"
  proof -
    from dec obtain s0 es c where
      h: "heap8_set input (reset d) = Inr s0" and
      p: "parse (heap s0) (length input) = (es, c)" and
      cb: "callbacks es s0 = Inr s"
      by (auto simp: decode_def split: sum.splits prod.splits if_splits)
    from heap8_set_Inr [OF h] have hp: "heap s0 = input @ drop (length input) (heap d)"
      and par: "parents s0 = parents (reset d)"
      by (simp_all add: heap_reset)
    from leaves p hp have "filter is_open es = []"
      by (simp add: filter_empty_conv list_all_iff)
    with callbacks_wf [OF wf_heap8_set [OF wf_reset h] cb] par d1 show ?thesis
      by (simp add: depth_def)
  qed
qed

theorem decode_depth_witness:
  "depth (reset (Decoder None)) = 1 \<and>
   map_sum id depth (decode (\<lambda>h n. ([PushInt 1], 0)) [0x01] (Decoder None)) = Inr 1 \<and>
   map_sum id depth (decode (\<lambda>h n. ([PushObjectStartFixed 1, PushInt 1], 0)) [0xa1, 0x01]
     (Decoder None)) = Inr 2"
proof -
  let ?P = "\<lambda>(h::8 word list) (n::nat). ([PushInt 1], 0::int)"
  let ?Q = "\<lambda>(h::8 word list) (n::nat). ([PushObjectStartFixed 1, PushInt 1], 0::int)"
  define s where "s = projr (decode ?P [0x01] (Decoder None))"
  define s1 where "s1 = projr (heap8_set [0xa1, 0x01] (reset (Decoder None)))"
  define s2 where "s2 = projr (callbacks [PushObjectStartFixed 1, PushInt 1] s1)"
  have d: "decode ?P [0x01] (Decoder None) = Inr s"
    unfolding s_def by (simp add: model_defs)
  have l: "list_all (\<lambda>ev. \<not> is_open ev)
      (fst (?P ([0x01] @ drop (length [0x01 :: 8 word]) (heap (Decoder None))) (length [0x01 :: 8 word])))"
    by simp
  have h: "heap8_set [0xa1, 0x01] (reset (Decoder None)) = Inr s1"
    unfolding s1_def by (simp add: model_defs)
  have p: "?Q (heap s1) (length [0xa1, 0x01 :: 8 word]) = ([PushObjectStartFixed 1, PushInt 1], 0)"
    by simp
  have c: "callbacks [PushObjectStartFixed 1, PushInt 1] s1 = Inr s2"
    unfolding s2_def s1_def by (simp add: model_defs)
  have d2: "depth s2 = 2"
    unfolding s2_def s1_def by (simp add: model_defs)
  from decode_depth [of "Decoder None" ?P "[0x01]" s] d l
  have "depth (reset (Decoder None)) = 1" and "depth s = 1"
    by blast+
  moreover
  from decode_depth [of "Decoder None" ?Q "[0xa1, 0x01]" s s1
      "[PushObjectStartFixed 1, PushInt 1]" 0 s2] h p c
  have "decode ?Q [0xa1, 0x01] (Decoder None) = Inr s2"
    by simp
  ultimately show ?thesis
    using d d2 by simp
qed

text \<open>
  The claim as stated fails: the events of the truncated array \<open>82 01\<close> (two items
  declared, one present) with status 0 leave the parents list at depth 2, and the call
  returns.
\<close>

theorem decode_open_frame_counterexample:
  "map_sum id depth
     (decode (\<lambda>h n. ([PushArrayStartFixed 2, PushInt 1], 0)) [0x82, 0x01] (Decoder None)) =
   Inr 2"
  by (simp add: model_defs)

text \<open>
  C4. A map whose first key is a string and whose second key is an integer should decode
  to a general mapping holding both entries. For \<open>{"a": 1, 2: 3}\<close> (bytes
  \<open>a2 61 61 01 02 03\<close>) \<open>decodeFirst\<close> returns the plain object that was pushed into
  the root array when the map was opened, holding the first entry only. The \<open>Map\<close> made
  at the promotion holds both entries, but only the frame refers to it (address 3).
\<close>

theorem decodeFirst_promoted_map:
  "map_sum id (\<lambda>r. (contents r, map (\<lambda>p. (type_p p, ref p)) (parents (snd r)),
                      lookup (store (snd r)) 3))
     (decodeFirst
        (\<lambda>h n. ([PushObjectStartFixed 2, PushUtf8String 2 2, PushInt 1, PushInt 2, PushInt 3], 0))
        [0xa2, 0x61, 0x61, 0x01, 0x02, 0x03] (Decoder None)) =
   Inr ((VRef 2, Some (Obj [([97], VNumber (Fin 1))])),
        [(PARENT_ARRAY, 1), (PARENT_MAP, 3)],
        Some (MapObj [(VString [97], VNumber (Fin 1)), (VNumber (Fin 2), VNumber (Fin 3))]))"
  by (simp add: model_defs)

text \<open>
  C5. A negative 64-bit integer event whose high word exceeds \<open>2 ^ 21 - 1\<close> should push the
  arbitrary-precision integer \<open>- 1 - (high * 2 ^ 32 + low)\<close>. For the high word
  \<open>2 ^ 21\<close> and the low word 0 (fragments 32, 0, 0, 0; bytes
  \<open>3b 00 20 00 00 00 00 00 00\<close>) \<open>pushInt64Neg\<close> pushes nothing: it calls
  \<open>NEG_ONE.sub\<close>, a method the declared \<open>bignumber.js\<close> does not have, and the TypeError
  ends the decode. (Lemma \<open>pushInt64Neg_big\<close> has it for every high word above the
  threshold; below it the native result is exact, lemma \<open>pushInt64Neg_native\<close>.)
\<close>

theorem pushInt64Neg_throws:
  "pushInt64Neg 32 0 0 0 s = Inl TypeError \<and>
   decodeFirst (\<lambda>h n. ([PushInt64Neg 32 0 0 0], 0))
     [0x3b, 0x00, 0x20, 0x00, 0x00, 0x00, 0x00, 0x00, 0x00] (Decoder None) = Inl TypeError"
  by (simp add: model_defs pushInt64Neg_def buildInt32_eq MAX_SAFE_HIGH_def)

text \<open>
  C6, as amended. A text-string event never makes the decode fail because its bytes are
  not valid UTF-8. In every state reached from \<open>_reset\<close> by the callbacks,
  \<open>pushUtf8String\<close> validates nothing: it converts the bytes leniently and pushes the
  resulting string as any value is pushed. In an array frame, the root included, whose
  array has fewer than \<open>2 ^ 32 - 1\<close> elements the call returns with the string appended;
  in an object or map frame that holds no truthy key the call returns with the string as
  the pending key. A text string alone, with a status that is not positive, decodes to
  the converted string.
\<close>

theorem pushUtf8String_lenient:
  "(heap8_set input (reset d) = Inr s0 \<longrightarrow> callbacks evs s0 = Inr s \<longrightarrow>
    currentParent s = Some p \<longrightarrow>
      (let v = VString (toString_utf8 (map unat (heap_slice (heap s) start (end + 1)))) in
       pushUtf8String start end s = push v s \<and>
       (type_p p = PARENT_ARRAY \<longrightarrow> lookup (store s) (ref p) = Some (Arr els) \<longrightarrow>
        length els < 4294967295 \<longrightarrow>
          (\<exists>s'. pushUtf8String start end s = Inr s' \<and>
                store s' = (store s)[ref p := Arr (els @ [Some v])] \<and>
                tmpKey s' = tmpKey s \<and> depth s' = depth s)) \<and>
       (type_p p = PARENT_OBJECT \<or> type_p p = PARENT_MAP \<longrightarrow> \<not> truthy (tmpKey s) \<longrightarrow>
          pushUtf8String start end s = Inr (s\<lparr>tmpKey := v\<rparr>)))) \<and>
   (length input \<le> length (heap d) \<longrightarrow> code \<le> 0 \<longrightarrow>
      (\<exists>s'. decodeFirst (\<lambda>h n. ([PushUtf8String start end], code)) input d =
         Inr (VString (toString_utf8 (map unat
                (heap_slice (input @ drop (length input) (heap d)) start (end + 1)))), s')))"
proof (intro conjI impI)
  assume reach: "heap8_set input (reset d) = Inr s0" "callbacks evs s0 = Inr s"
    and cur: "currentParent s = Some p"
  define v where "v = VString (toString_utf8 (map unat (heap_slice (heap s) start (end + 1))))"
  have wfs: "wf_decoder s" by (rule reachable_wf [OF reach])
  from currentParent_last [OF cur] have ne: "parents s \<noteq> []" and pl: "p = last (parents s)"
    by simp_all
  have eq: "pushUtf8String start end s = push v s"
    by (simp add: pushUtf8String_def v_def)
  have arr: "\<exists>s'. push v s = Inr s' \<and> store s' = (store s)[ref p := Arr (els @ [Some v])] \<and>
                tmpKey s' = tmpKey s \<and> depth s' = depth s"
    if ty: "type_p p = PARENT_ARRAY" and lk: "lookup (store s) (ref p) = Some (Arr els)"
      and len: "length els < 4294967295"
  proof -
    define s1 where "s1 = s\<lparr>store := (store s)[ref p := Arr (els @ [Some v])]\<rparr>"
    from lk have lt: "ref p < length (store s)" and els: "store s ! ref p = Arr els"
      by (auto simp: lookup_def split: if_splits)
    have e1: "ext (store s) (store s1)"
      unfolding s1_def by (simp, rule ext_update [OF lt]) (simp add: els kind_ok_same)
    have wf1: "wf_decoder s1" by (rule wf_ext [OF wfs _ e1]) (simp add: s1_def)
    have "push v s = dec s1"
      using cur ty lk len by (simp add: push_def array_push_def s1_def)
    with dec_wf_props [OF wf1] show ?thesis
      by (auto simp: s1_def depth_def)
  qed
  have key: "push v s = Inr (s\<lparr>tmpKey := v\<rparr>)"
    if "type_p p = PARENT_OBJECT \<or> type_p p = PARENT_MAP" and "\<not> truthy (tmpKey s)"
    using that cur by (auto simp: push_def v_def)
  from eq arr key show
    "let v = VString (toString_utf8 (map unat (heap_slice (heap s) start (end + 1)))) in
       pushUtf8String start end s = push v s \<and>
       (type_p p = PARENT_ARRAY \<longrightarrow> lookup (store s) (ref p) = Some (Arr els) \<longrightarrow>
        length els < 4294967295 \<longrightarrow>
          (\<exists>s'. pushUtf8String start end s = Inr s' \<and>
                store s' = (store s)[ref p := Arr (els @ [Some v])] \<and>
                tmpKey s' = tmpKey s \<and> depth s' = depth s)) \<and>
       (type_p p = PARENT_OBJECT \<or> type_p p = PARENT_MAP \<longrightarrow> \<not> truthy (tmpKey s) \<longrightarrow>
          pushUtf8String start end s = Inr (s\<lparr>tmpKey := v\<rparr>))"
    unfolding Let_def v_def [symmetric] by simp
next
  assume "length input \<le> length (heap d)" and "code \<le> 0"
  then show "\<exists>s'. decodeFirst (\<lambda>h n. ([PushUtf8String start end], code)) input d =
         Inr (VString (toString_utf8 (map unat
                (heap_slice (input @ drop (length input) (heap d)) start (end + 1)))), s')"
    by (simp add: decodeFirst_def decode_def heap8_set_def reset_def alloc_def
        pushUtf8String_def push_def currentParent_def array_push_def lookup_def dec_def
        prop_num_def set_currentParent_def first_of_def Let_def)
qed

theorem pushUtf8String_lenient_witness:
  "map_sum id (\<lambda>s. lookup (store s) 1)
     (pushUtf8String 1 2 (projr (heap8_set [0x62, 0xc3, 0x28] (reset (Decoder None))))) =
     Inr (Some (Arr [Some (VString [65533, 40])])) \<and>
   map_sum id tmpKey
     (pushUtf8String 2 3 (projr (callbacks [PushObjectStartFixed 1]
        (projr (heap8_set [0xa1, 0x62, 0xc3, 0x28, 0x01] (reset (Decoder None))))))) =
     Inr (VString [65533, 40]) \<and>
   map_sum id fst
     (decodeFirst (\<lambda>h n. ([PushUtf8String 1 2], - 1)) [0x62, 0xc3, 0x28] (Decoder None)) =
     Inr (VString [65533, 40])"
proof -
  define s0 where "s0 = projr (heap8_set [0x62, 0xc3, 0x28] (reset (Decoder None)))"
  define t0 where "t0 = projr (heap8_set [0xa1, 0x62, 0xc3, 0x28, 0x01] (reset (Decoder None)))"
  define t where "t = projr (callbacks [PushObjectStartFixed 1] t0)"
  have h: "heap8_set [0x62, 0xc3, 0x28] (reset (Decoder None)) = Inr s0"
    unfolding s0_def by (simp add: model_defs)
  have c: "callbacks [] s0 = Inr s0"
    by simp
  have cur: "currentParent s0 = Some (last (parents s0))"
    unfolding s0_def by (simp add: model_defs)
  have ty: "type_p (last (parents s0)) = PARENT_ARRAY"
    and lk: "lookup (store s0) (ref (last (parents s0))) = Some (Arr [])"
    and st: "store s0 = [Arr [], Arr []]" and rf: "ref (last (parents s0)) = 1"
    and v0: "toString_utf8 (map unat (heap_slice (heap s0) 1 (2 + 1))) = [65533, 40]"
    unfolding s0_def by (simp_all add: model_defs)
  have h': "heap8_set [0xa1, 0x62, 0xc3, 0x28, 0x01] (reset (Decoder None)) = Inr t0"
    unfolding t0_def by (simp add: model_defs)
  have c': "callbacks [PushObjectStartFixed 1] t0 = Inr t"
    unfolding t_def t0_def by (simp add: model_defs)
  have cur': "currentParent t = Some (last (parents t))"
    unfolding t_def t0_def by (simp add: model_defs)
  have ty': "type_p (last (parents t)) = PARENT_OBJECT \<or> type_p (last (parents t)) = PARENT_MAP"
    and nk: "\<not> truthy (tmpKey t)"
    and v1: "toString_utf8 (map unat (heap_slice (heap t) 2 (3 + 1))) = [65533, 40]"
    unfolding t_def t0_def by (simp_all add: model_defs)
  have len: "length [0x62, 0xc3, 0x28 :: 8 word] \<le> length (heap (Decoder None))"
    by (simp add: Decoder_def reset_def alloc_def)
  have v2: "toString_utf8 (map unat (heap_slice ([0x62, 0xc3, 0x28] @
      drop (length [0x62, 0xc3, 0x28 :: 8 word]) (heap (Decoder None))) 1 (2 + 1))) = [65533, 40]"
    by (simp add: model_defs)
  have l0: "length ([] :: jsval option list) < 4294967295" and c0: "- 1 \<le> (0::int)"
    by simp_all
  note a = pushUtf8String_lenient [of "[0x62, 0xc3, 0x28]" "Decoder None" s0 "[]" s0
      "last (parents s0)" 1 2 "[]" "- 1", unfolded Let_def v0 v2]
  from a h c cur ty lk l0 obtain s' where
    1: "pushUtf8String 1 2 s0 = Inr s'" and
    2: "store s' = (store s0)[ref (last (parents s0)) := Arr ([] @ [Some (VString [65533, 40])])]"
    by blast
  from a len c0 obtain s'' where
    3: "decodeFirst (\<lambda>h n. ([PushUtf8String 1 2], - 1)) [0x62, 0xc3, 0x28] (Decoder None) =
      Inr (VString [65533, 40], s'')"
    by blast
  note b = pushUtf8String_lenient [of "[0xa1, 0x62, 0xc3, 0x28, 0x01]" "Decoder None" t0
      "[PushObjectStartFixed 1]" t "last (parents t)" 2 3 "[]" 0, unfolded Let_def v1]
  from b h' c' cur' ty' nk
  have 4: "pushUtf8String 2 3 t = Inr (t\<lparr>tmpKey := VString [65533, 40]\<rparr>)"
    by blast
  from 2 have "lookup (store s') 1 = Some (Arr [Some (VString [65533, 40])])"
    by (simp add: st rf lookup_def)
  with 1 3 4 show ?thesis
    unfolding s0_def [symmetric] t0_def [symmetric] t_def [symmetric] by simp
qed

text \<open>
  The claim as stated fails: for the text string \<open>61 ff\<close>, whose only byte \<open>ff\<close> is
  not valid UTF-8, \<open>decodeFirst\<close> returns the string of the one code point U+FFFD.
\<close>

theorem pushUtf8String_invalid_counterexample:
  "map_sum id fst
     (decodeFirst (\<lambda>h n. ([PushUtf8String 1 1], 0)) [0x61, 0xff] (Decoder None)) =
   Inr (VString [65533])"
  by (simp add: model_defs)

text \<open>
  C7, as amended. For every scanner status greater than zero, \<open>decodeFirst\<close> and
  \<open>decodeAll\<close> fail: no value is returned.
\<close>

theorem decode_positive_status_fails:
  assumes "parse (input @ drop (length input) (heap d)) (length input) = (evs, code)"
    and "0 < code"
  shows "(\<exists>e. decodeFirst parse input d = Inl e) \<and> (\<exists>e. decodeAll parse input d = Inl e)"
proof -
  have "\<exists>e. decode parse input d = Inl e"
  proof (cases "heap8_set input (reset d)")
    case (Inl e)
    then show ?thesis by (simp add: decode_def)
  next
    case (Inr s1)
    from heap8_set_Inr [OF Inr] have "heap s1 = input @ drop (length input) (heap d)"
      by (simp add: heap_reset)
    with assms Inr show ?thesis
      by (cases "callbacks evs s1") (simp_all add: decode_def)
  qed
  then show ?thesis
    by (auto simp: decodeFirst_def decodeAll_def)
qed

theorem decode_positive_status_fails_witness:
  "decodeFirst (\<lambda>h n. ([PushInt 1], 1)) [0x01] (Decoder None) = Inl (Error ''Failed to parse'') \<and>
   decodeAll (\<lambda>h n. ([PushInt 1], 1)) [0x01] (Decoder None) = Inl (Error ''Failed to parse'')"
  using decode_positive_status_fails
    [of "\<lambda>h n. ([PushInt 1], 1)" "[0x01]" "Decoder None" "[PushInt 1]" 1]
  by (simp add: model_defs)

text \<open>
  The claim as stated fails: \<open>_decode\<close> tests \<open>code > 0\<close>, so with the nonzero status
  \<open>- 1\<close> \<open>decodeFirst\<close> returns the decoded value.
\<close>

theorem decode_negative_status_counterexample:
  "map_sum id fst
     (decodeFirst (\<lambda>h n. ([PushInt 1], - 1)) [0x01] (Decoder None)) =
   Inr (VNumber (Fin 1))"
  by (simp add: model_defs)

text \<open>
  C8, as amended. When the scan produces no top-level value and its status is not
  positive, \<open>decodeFirst\<close> returns \<open>undefined\<close>: first for a scan without events, then
  for any successful \<open>_decode\<close> that leaves the root array empty.
\<close>

theorem decodeFirst_no_values:
  "(length input \<le> length (heap d) \<longrightarrow>
      parse (input @ drop (length input) (heap d)) (length input) = ([], code) \<longrightarrow> code \<le> 0 \<longrightarrow>
      (\<exists>s. decodeFirst parse input d = Inr (VUndefined, s))) \<and>
   (decode parse input d = Inr s \<longrightarrow> lookup (store s) (res s) = Some (Arr []) \<longrightarrow>
      decodeFirst parse input d = Inr (VUndefined, s))"
  by (simp add: decodeFirst_def decode_def heap8_set_def heap_reset first_of_def)
     (simp add: reset_def alloc_def lookup_def)

theorem decodeFirst_no_values_witness:
  "map_sum id fst (decodeFirst (\<lambda>h n. ([], 0)) [] (Decoder None)) = Inr VUndefined \<and>
   map_sum id fst (decodeFirst (\<lambda>h n. ([], - 3)) [] (Decoder None)) = Inr VUndefined"
proof -
  let ?P = "\<lambda>(h::8 word list) (n::nat). ([] :: event list, 0::int)"
  let ?Q = "\<lambda>(h::8 word list) (n::nat). ([] :: event list, - 3::int)"
  define s where "s = projr (decode ?Q [] (Decoder None))"
  have d: "decode ?Q [] (Decoder None) = Inr s"
    unfolding s_def by (simp add: model_defs)
  have r: "lookup (store s) (res s) = Some (Arr [])"
    unfolding s_def by (simp add: model_defs)
  have len: "length ([] :: 8 word list) \<le> length (heap (Decoder None))"
    by simp
  from decodeFirst_no_values [of "[]" "Decoder None" ?P 0] len
  have "\<exists>t. decodeFirst ?P [] (Decoder None) = Inr (VUndefined, t)"
    by simp
  moreover
  from decodeFirst_no_values [of "[]" "Decoder None" ?Q 0 s] d r
  have "decodeFirst ?Q [] (Decoder None) = Inr (VUndefined, s)"
    by blast
  ultimately show ?thesis
    by auto
qed

text \<open>
  The claim as stated fails: on the empty input, with no event and status 0,
  \<open>decodeFirst\<close> returns \<open>undefined\<close>.
\<close>

theorem decodeFirst_empty_counterexample:
  "map_sum id fst (decodeFirst (\<lambda>h n. ([], 0)) [] (Decoder None)) = Inr VUndefined"
  by (simp add: model_defs)


text \<open>
  C10. In a state reached from \<open>_reset\<close> by the callbacks, let the current frame be of
  type \<open>PARENT_OBJECT\<close> or \<open>PARENT_MAP\<close> and hold no key, or a falsy one. When a falsy
  key \<open>k\<close> is pushed and then any item \<open>v\<close>, both pushes return, \<open>k\<close> is held after
  the first and \<open>v\<close> after the second, the depth is unchanged, and no container of the
  store has changed: nothing was inserted. At most the \<open>Map\<close> of a promotion, made from
  the entries the object had, has been added to the store.
\<close>

theorem falsy_key_replaced:
  assumes "heap8_set input (reset d) = Inr s0" and "callbacks evs s0 = Inr s"
    and cur: "currentParent s = Some p"
    and ty: "type_p p = PARENT_OBJECT \<or> type_p p = PARENT_MAP"
    and nokey: "\<not> truthy (tmpKey s)"
    and falsy: "\<not> truthy k"
  shows "\<exists>s1 s2. push k s = Inr s1 \<and> tmpKey s1 = k \<and> push v s1 = Inr s2 \<and> tmpKey s2 = v \<and>
           depth s2 = depth s \<and>
           (store s2 = store s \<or>
            (\<exists>ps. lookup (store s) (ref p) = Some (Obj ps) \<and>
                  store s2 = store s @ [MapObj (buildMap ps)]))"
proof -
  have wfs: "wf_decoder s" by (rule reachable_wf [OF assms(1,2)])
  from currentParent_last [OF cur] have ne: "parents s \<noteq> []" and pl: "p = last (parents s)"
    by simp_all
  from wf_last [OF wfs] pl have lt: "ref p < length (store s)"
    and kind: "kind_ok (type_p p) (store s ! ref p)"
    by (simp_all add: wf_frame_def)
  from ty show ?thesis
  proof
    assume m: "type_p p = PARENT_MAP"
    have 1: "push k s = Inr (s\<lparr>tmpKey := k\<rparr>)"
      using cur m nokey by (simp add: push_def)
    have "currentParent (s\<lparr>tmpKey := k\<rparr>) = Some p"
      using cur by (auto simp: currentParent_def split: if_splits)
    then have 2: "push v (s\<lparr>tmpKey := k\<rparr>) = Inr (s\<lparr>tmpKey := v\<rparr>)"
      using m falsy by (simp add: push_def)
    from 1 2 show ?thesis by (simp add: depth_def)
  next
    assume ob: "type_p p = PARENT_OBJECT"
    with kind obtain ps where ps: "store s ! ref p = Obj ps"
      by (auto simp: kind_ok_OBJECT)
    with lt have lk: "lookup (store s) (ref p) = Some (Obj ps)"
      by (simp add: lookup_def)
    define sm where "sm w = set_currentParent (p\<lparr>type_p := PARENT_MAP, ref := length (store s)\<rparr>)
         (s\<lparr>tmpKey := w, store := store s @ [MapObj (buildMap ps)]\<rparr>)" for w
    have promote: "push w (s\<lparr>tmpKey := u\<rparr>) = Inr (sm w)" if "\<not> truthy u" "\<not> typeof_string w" for u w
      using ne ob lk that by (simp add: push_def currentParent_def alloc_def sm_def flip: pl)
    have keep: "push w (s\<lparr>tmpKey := u\<rparr>) = Inr (s\<lparr>tmpKey := w\<rparr>)" if "\<not> truthy u" "typeof_string w" for u w
      using ne ob that by (simp add: push_def currentParent_def flip: pl)
    have s_eq: "s\<lparr>tmpKey := tmpKey s\<rparr> = s" by simp
    have sm_props: "tmpKey (sm w) = w" "depth (sm w) = depth s"
      "store (sm w) = store s @ [MapObj (buildMap ps)]" for w
      using ne by (simp_all add: sm_def set_currentParent_def depth_def)
    have sm_push: "push v (sm k) = Inr (sm v)"
      using ne falsy by (simp add: push_def sm_def set_currentParent_def currentParent_def)
    show ?thesis
    proof (cases "typeof_string k")
      case True
      from keep [OF nokey True] have 1: "push k s = Inr (s\<lparr>tmpKey := k\<rparr>)"
        by (simp add: s_eq)
      show ?thesis
      proof (cases "typeof_string v")
        case True
        from keep [OF falsy True] 1 show ?thesis by (simp add: depth_def)
      next
        case False
        from promote [OF falsy False] 1 lk show ?thesis by (simp add: sm_props)
      qed
    next
      case False
      from promote [OF nokey False] have 1: "push k s = Inr (sm k)"
        by (simp add: s_eq)
      with sm_push lk show ?thesis by (simp add: sm_props)
    qed
  qed
qed

theorem falsy_key_replaced_witness:
  "map_sum id (\<lambda>s. (tmpKey s, lookup (store s) 2))
     (callbacks [PushObjectStartFixed 1, PushUtf8String 2 1, PushInt 7]
        (projr (heap8_set [0xa1, 0x60, 0x07] (reset (Decoder None))))) =
   Inr (VNumber (Fin 7), Some (Obj []))"
proof -
  define s0 where "s0 = projr (heap8_set [0xa1, 0x60, 0x07] (reset (Decoder None)))"
  define s where "s = projr (callbacks [PushObjectStartFixed 1] s0)"
  define p where "p = last (parents s)"
  have h: "heap8_set [0xa1, 0x60, 0x07] (reset (Decoder None)) = Inr s0"
    unfolding s0_def by (simp add: model_defs)
  have c: "callbacks [PushObjectStartFixed 1] s0 = Inr s"
    unfolding s_def s0_def by (simp add: model_defs)
  have cur: "currentParent s = Some p"
    unfolding p_def s_def s0_def by (simp add: model_defs)
  have ty: "type_p p = PARENT_OBJECT \<or> type_p p = PARENT_MAP"
    unfolding p_def s_def s0_def by (simp add: model_defs)
  have nokey: "\<not> truthy (tmpKey s)"
    unfolding s_def s0_def by (simp add: model_defs)
  have falsy: "\<not> truthy (VString [])"
    by simp
  have st: "store s = [Arr [], Arr [Some (VRef 2)], Obj []]" and hp: "pushUtf8String 2 1 s = push (VString []) s"
    unfolding s_def s0_def by (simp_all add: model_defs)
  from falsy_key_replaced [OF h c cur ty nokey falsy, of "VNumber (Fin 7)"]
  obtain t1 t2 where
    1: "push (VString []) s = Inr t1" and 2: "push (VNumber (Fin 7)) t1 = Inr t2" and
    3: "tmpKey t2 = VNumber (Fin 7)" and
    4: "store t2 = store s \<or>
      (\<exists>ps. lookup (store s) (ref p) = Some (Obj ps) \<and> store t2 = store s @ [MapObj (buildMap ps)])"
    by blast
  from 4 st have "lookup (store t2) 2 = Some (Obj [])"
    by (auto simp: lookup_def)
  moreover from c have "pushObjectStartFixed 1 s0 = Inr s"
    by (simp split: sum.splits)
  moreover from 1 hp have "pushUtf8String 2 1 s = Inr t1"
    by simp
  moreover from 2 have "pushInt 7 t1 = Inr t2"
    by (simp add: pushInt_def)
  ultimately show ?thesis
    using 3 by (simp flip: s0_def)
qed

end
